theory Spec2Isabelle
  imports Main
begin

section \<open>Values and documents\<close>

text \<open>
  Identities travel through the server as plain JavaScript values: a request parameter or
  a field of a request body that is missing reads as \<^verbatim>\<open>undefined\<close>, anything else
  is a string. The source tests such values for truthiness (\<^verbatim>\<open>if (client.tokenId)\<close>,
  \<^verbatim>\<open>!req.params.clientId\<close>, \<^verbatim>\<open>core.args.token\<close>): \<^verbatim>\<open>undefined\<close> and the empty
  string are falsy, every other string is truthy.
\<close>

datatype jsval = Undefined | Str string

fun truthy :: "jsval \<Rightarrow> bool" where
  "truthy Undefined = False"
| "truthy (Str s) = (s \<noteq> [])"

text \<open>
  A document of the \<^verbatim>\<open>morrigan.clients\<close> collection. The fields are the ones the
  source writes: \<^verbatim>\<open>id\<close>, \<^verbatim>\<open>created\<close>, \<^verbatim>\<open>tokenId\<close>, \<^verbatim>\<open>updated\<close> and \<^verbatim>\<open>state\<close>
  (the last three are absent on a freshly inserted document). Instants of
  \<^verbatim>\<open>DateTime.now()\<close> are natural numbers. The store's own \<^verbatim>\<open>_id\<close> key is never read
  by the source and is left out.
\<close>

record client_record =
  cr_id :: jsval
  cr_created :: nat
  cr_tokenId :: jsval
  cr_updated :: "nat option"
  cr_state :: jsval

text \<open>
  A document of the \<^verbatim>\<open>morrigan.clients.tokens\<close> collection, which the token generator
  owns. The server reads \<^verbatim>\<open>record.id\<close> and \<^verbatim>\<open>record.expires\<close> of a freshly minted
  token and deletes documents by \<^verbatim>\<open>id\<close>.
\<close>

record token_record =
  tr_id :: jsval
  tr_subject :: jsval
  tr_expires :: nat

text \<open>The module variables \<^verbatim>\<open>clientRecords\<close> and \<^verbatim>\<open>tokenRecords\<close>: two collections,
  kept as lists in insertion order (nothing in the source makes \<^verbatim>\<open>id\<close> unique).\<close>

record server_state =
  clientRecords :: "client_record list"
  tokenRecords :: "token_record list"

subsection \<open>Collection operations\<close>

text \<open>
  The four driver calls the source uses, each with a filter \<^verbatim>\<open>{id: v}\<close> given as a
  predicate: \<^verbatim>\<open>findOne\<close> returns the first matching document or nothing,
  \<^verbatim>\<open>insertOne\<close> appends, \<^verbatim>\<open>replaceOne\<close> and \<^verbatim>\<open>deleteOne\<close> act on the first match
  and do nothing when there is none.
\<close>

definition findOne :: "('a \<Rightarrow> bool) \<Rightarrow> 'a list \<Rightarrow> 'a option" where
  "findOne p xs = List.find p xs"

definition insertOne :: "'a \<Rightarrow> 'a list \<Rightarrow> 'a list" where
  "insertOne x xs = xs @ [x]"

fun replaceOne :: "('a \<Rightarrow> bool) \<Rightarrow> 'a \<Rightarrow> 'a list \<Rightarrow> 'a list" where
  "replaceOne p y [] = []"
| "replaceOne p y (x # xs) = (if p x then y # xs else x # replaceOne p y xs)"

fun deleteOne :: "('a \<Rightarrow> bool) \<Rightarrow> 'a list \<Rightarrow> 'a list" where
  "deleteOne p [] = []"
| "deleteOne p (x # xs) = (if p x then xs else x # deleteOne p xs)"

section \<open>The token generator\<close>

text \<open>
  \<^verbatim>\<open>tokens\<close> is an instance of an external package; the server calls
  \<^verbatim>\<open>tokens.newToken(clientId)\<close> and \<^verbatim>\<open>tokens.verifyToken(token)\<close> and shares the token
  collection with it. It is a parameter of the model: minting takes the token collection
  and the subject and returns the signed token, its record and the collection as the
  generator leaves it; verifying takes the collection and the presented token and returns
  the object whose fields \<^verbatim>\<open>success\<close>, \<^verbatim>\<open>subject\<close>, \<^verbatim>\<open>status\<close> and \<^verbatim>\<open>reason\<close> the server
  reads.
\<close>

record minted =
  m_token :: string
  m_record :: token_record

record verdict =
  v_success :: bool
  v_subject :: jsval
  v_status :: string
  v_reason :: string

record authority =
  tokens_newToken :: "token_record list \<Rightarrow> jsval \<Rightarrow> minted \<times> token_record list"
  tokens_verifyToken :: "token_record list \<Rightarrow> string \<Rightarrow> verdict"

subsection \<open>One record per subject\<close>

text \<open>
  Modelled from the spec: the Token Authority, the package \<^verbatim>\<open>@adicitus/jwtgenerator\<close> that
  the server instantiates and that is not part of the repository. A client has at most one
  live token: minting for a subject puts the new token's record in the place of the
  subject's record (or adds it when the subject has none), and a presented token is
  accepted while its record is in the collection, so that a replaced or deleted record
  invalidates the token. A token is named by the id of its record; a new id is longer than
  every id in the collection. Signatures, keys and the clock are left out: no token
  expires.
\<close>

fun upsertOne :: "('a \<Rightarrow> bool) \<Rightarrow> 'a \<Rightarrow> 'a list \<Rightarrow> 'a list" where
  "upsertOne p y [] = [y]"
| "upsertOne p y (x # xs) = (if p x then y # xs else x # upsertOne p y xs)"

definition id_length :: "token_record \<Rightarrow> nat" where
  "id_length t = (case tr_id t of Undefined \<Rightarrow> 0 | Str s \<Rightarrow> length s)"

definition fresh_id :: "token_record list \<Rightarrow> string" where
  "fresh_id store = CHR ''T'' # replicate (foldr (\<lambda>t. max (id_length t)) store 0) (CHR ''+'')"

definition replacing_authority :: authority where
  "replacing_authority =
     \<lparr>tokens_newToken = (\<lambda>store subject.
         (let name = fresh_id store;
              rec = \<lparr>tr_id = Str name, tr_subject = subject, tr_expires = 30\<rparr>
          in (\<lparr>m_token = name, m_record = rec\<rparr>,
              upsertOne (\<lambda>t. tr_subject t = subject) rec store))),
      tokens_verifyToken = (\<lambda>store presented.
         (case List.find (\<lambda>t. tr_id t = Str presented) store of
            Some t \<Rightarrow> \<lparr>v_success = True, v_subject = tr_subject t,
                        v_status = ''ok'', v_reason = []\<rparr>
          | None \<Rightarrow> \<lparr>v_success = False, v_subject = Undefined,
                      v_status = ''invalid'', v_reason = ''unknown token''\<rparr>))\<rparr>"

section \<open>The client registry (server side)\<close>

definition getClient :: "jsval \<Rightarrow> server_state \<Rightarrow> client_record option" where
  "getClient clientId st = findOne (\<lambda>r. cr_id r = clientId) (clientRecords st)"

definition getClients :: "server_state \<Rightarrow> client_record list" where
  "getClients st = clientRecords st"

text \<open>
  \<^verbatim>\<open>provisionClient\<close>: look the client up; when absent insert \<^verbatim>\<open>{id, created}\<close>; mint a
  token; set \<^verbatim>\<open>tokenId\<close> and \<^verbatim>\<open>updated\<close> on the record and replace the stored document;
  return the token string. \<open>tc\<close> and \<open>tu\<close> are the readings of the two
  \<^verbatim>\<open>DateTime.now()\<close> calls. The final \<^verbatim>\<open>replaceOne\<close> is issued without \<^verbatim>\<open>await\<close>; the
  model is sequential and takes it as done when the function returns.
\<close>

definition provisionClient ::
  "authority \<Rightarrow> nat \<Rightarrow> nat \<Rightarrow> jsval \<Rightarrow> server_state \<Rightarrow> string \<times> server_state" where
  "provisionClient ta tc tu clientId st =
     (let client = getClient clientId st;
          (record, st1) =
            (case client of
               Some c \<Rightarrow> (c, st)
             | None \<Rightarrow>
                 (let r = \<lparr>cr_id = clientId, cr_created = tc, cr_tokenId = Undefined,
                            cr_updated = None, cr_state = Undefined\<rparr>
                  in (r, st\<lparr>clientRecords := insertOne r (clientRecords st)\<rparr>)));
          (t, toks) = tokens_newToken ta (tokenRecords st1) clientId;
          st2 = st1\<lparr>tokenRecords := toks\<rparr>;
          record' = record\<lparr>cr_tokenId := tr_id (m_record t), cr_updated := Some tu\<rparr>;
          st3 = st2\<lparr>clientRecords :=
                  replaceOne (\<lambda>r. cr_id r = cr_id record') record' (clientRecords st2)\<rparr>
      in (m_token t, st3))"

text \<open>
  \<^verbatim>\<open>deprovisionClient\<close>: \<^verbatim>\<open>false\<close> when the client is unknown; otherwise delete the
  client document, delete the token document named by a truthy \<^verbatim>\<open>tokenId\<close>, and return
  \<^verbatim>\<open>true\<close>.
\<close>

definition deprovisionClient :: "jsval \<Rightarrow> server_state \<Rightarrow> bool \<times> server_state" where
  "deprovisionClient clientId st =
     (case getClient clientId st of
        None \<Rightarrow> (False, st)
      | Some client \<Rightarrow>
          (let st1 = st\<lparr>clientRecords :=
                        deleteOne (\<lambda>r. cr_id r = cr_id client) (clientRecords st)\<rparr>;
               st2 = (if truthy (cr_tokenId client)
                      then st1\<lparr>tokenRecords :=
                             deleteOne (\<lambda>t. tr_id t = cr_tokenId client) (tokenRecords st1)\<rparr>
                      else st1)
           in (True, st2)))"

text \<open>
  \<^verbatim>\<open>verifyToken\<close>: ask the generator; on \<^verbatim>\<open>r.success\<close> answer \<^verbatim>\<open>state: 'success'\<close>
  with whatever \<^verbatim>\<open>getClient(r.subject)\<close> returned, otherwise
  \<^verbatim>\<open>state: 'authenticationfailed'\<close> with the generator's status and reason.
\<close>

datatype verify_result =
  Success "client_record option"
| AuthenticationFailed string string

definition verifyToken :: "authority \<Rightarrow> string \<Rightarrow> server_state \<Rightarrow> verify_result" where
  "verifyToken ta token st =
     (let r = tokens_verifyToken ta (tokenRecords st) token
      in if v_success r
         then (let client = getClient (v_subject r) st in Success client)
         else AuthenticationFailed (v_status r) (v_reason r))"

subsection \<open>Message handlers\<close>

text \<open>
  What the server sends on a connection: \<^verbatim>\<open>{type: 'client.token.issue', token, expires}\<close>
  (the expiry is kept as the instant, not as its ISO text).
\<close>

datatype server_message = ClientTokenIssue string nat

datatype js_error = TypeError | Error string

text \<open>
  \<^verbatim>\<open>messages['token.refresh']\<close>: mint a token for \<^verbatim>\<open>record.clientId\<close> (the identity bound
  to the connection) and send it. The result is the list of messages sent on the
  connection and the new server state.
\<close>

definition messages_token_refresh ::
  "authority \<Rightarrow> jsval \<Rightarrow> server_state \<Rightarrow> server_message list \<times> server_state" where
  "messages_token_refresh ta clientId st =
     (let (r, toks) = tokens_newToken ta (tokenRecords st) clientId;
          st1 = st\<lparr>tokenRecords := toks\<rparr>
      in ([ClientTokenIssue (m_token r) (tr_expires (m_record r))], st1))"

text \<open>
  \<^verbatim>\<open>messages['state']\<close>: fetch the client through the client provider's
  \<^verbatim>\<open>getClient\<close> (this module) and assign \<^verbatim>\<open>message.state\<close> to the \<^verbatim>\<open>state\<close> property
  of the object that came back. The handler ends there: the object is local to it and no
  collection call follows. The result is that local object together with the server state;
  a missing client makes the assignment throw.
\<close>

definition messages_state ::
  "jsval \<Rightarrow> jsval \<Rightarrow> server_state \<Rightarrow> js_error + (client_record \<times> server_state)" where
  "messages_state message_state clientId st =
     (case getClient clientId st of
        None \<Rightarrow> Inl TypeError
      | Some client \<Rightarrow> Inr (client\<lparr>cr_state := message_state\<rparr>, st))"

subsection \<open>The deprovisioning endpoint\<close>

text \<open>
  The response object is modelled by the calls made on it, in order. The request is
  \<^verbatim>\<open>req.params\<close>: \<open>None\<close> when it is missing, otherwise the value of
  \<^verbatim>\<open>req.params.clientId\<close>. After the guard that answers 400 the handler goes on to
  \<^verbatim>\<open>deprovisionClient(req.params.clientId)\<close>; reading \<^verbatim>\<open>clientId\<close> of a missing
  \<^verbatim>\<open>params\<close> throws. The \<^verbatim>\<open>then\<close> callback answers 200 or 204; the \<^verbatim>\<open>catch\<close> callback
  (500) needs a rejected promise, which the collection model never produces.
\<close>

datatype res_call = Status nat | Send string | End

definition ep_deprovisionClient ::
  "jsval option \<Rightarrow> server_state \<Rightarrow> js_error option \<times> res_call list \<times> server_state" where
  "ep_deprovisionClient params st =
     (let res1 = (case params of
                    None \<Rightarrow> [Status 400, Send ''No client ID provided.'']
                  | Some clientId \<Rightarrow>
                      if \<not> truthy clientId
                      then [Status 400, Send ''No client ID provided.'']
                      else [])
      in case params of
           None \<Rightarrow> (Some TypeError, res1, st)
         | Some clientId \<Rightarrow>
             (let (removed, st1) = deprovisionClient clientId st;
                  res2 = (if removed then [Status 200, End] else [Status 204, End])
              in (None, res1 @ res2, st1)))"

section \<open>The client agent\<close>

subsection \<open>Inputs, files and timers\<close>

text \<open>
  \<^verbatim>\<open>core\<close> as \<^verbatim>\<open>setup\<close> reads it: \<^verbatim>\<open>core.stateDir\<close>, \<^verbatim>\<open>core.args\<close> (which the source
  tests for presence before reading \<^verbatim>\<open>force\<close>) with \<^verbatim>\<open>token\<close>, \<^verbatim>\<open>tokenFile\<close> and
  \<^verbatim>\<open>force\<close>, and \<^verbatim>\<open>core.settings.token\<close>.
\<close>

record args =
  args_token :: jsval
  args_tokenFile :: jsval
  args_force :: bool

record settings =
  settings_token :: jsval

record core =
  stateDir :: string
  core_args :: "args option"
  core_settings :: settings

fun str_of :: "jsval \<Rightarrow> string" where
  "str_of (Str s) = s"
| "str_of Undefined = ''undefined''"

text \<open>
  The file system maps a path to the content of the file there. Timers follow the
  runtime: \<^verbatim>\<open>setInterval\<close> arms a recurring timer and returns its \<^verbatim>\<open>Timeout\<close> handle,
  \<^verbatim>\<open>setImmediate\<close> would return an \<^verbatim>\<open>Immediate\<close> handle. \<^verbatim>\<open>clearImmediate\<close> marks the
  object it is given as destroyed and unlinks it from the list it is linked into; a
  \<^verbatim>\<open>Timeout\<close> sits in its timer list through the same links, so a handle of
  \<^verbatim>\<open>setInterval\<close> passed to \<^verbatim>\<open>clearImmediate\<close> is taken off the armed timers and its
  callback is not run again. A callback is the closure the source passes: send a refresh
  request on the connection it captured.
\<close>

datatype timer_handle = Timeout nat | Immediate nat

datatype client_message = ClientTokenRefresh

datatype callback = SendRefresh nat

text \<open>
  The agent's module variables (\<^verbatim>\<open>null\<close> or \<^verbatim>\<open>undefined\<close> is \<open>None\<close>) together with
  the world they act on: the files, the armed interval timers (handle number, callback,
  period in milliseconds), the pending immediates, and what has been sent on each
  connection.
\<close>

record agent_world =
  tokenPath :: "string option"
  tokenExpirationPath :: "string option"
  token :: "string option"
  tokenExpires :: "string option"
  tokenRefreshInterval :: "timer_handle option"
  files :: "string \<Rightarrow> string option"
  intervals :: "(nat \<times> callback \<times> nat) list"
  immediates :: "nat list"
  next_handle :: nat
  sent :: "(nat \<times> client_message) list"

definition existsSync :: "string \<Rightarrow> agent_world \<Rightarrow> bool" where
  "existsSync path w = (files w path \<noteq> None)"

definition writeFileSync :: "string \<Rightarrow> string \<Rightarrow> agent_world \<Rightarrow> agent_world" where
  "writeFileSync path content w = w\<lparr>files := (files w)(path \<mapsto> content)\<rparr>"

definition connection_send :: "nat \<Rightarrow> client_message \<Rightarrow> agent_world \<Rightarrow> agent_world" where
  "connection_send connection m w = w\<lparr>sent := sent w @ [(connection, m)]\<rparr>"

definition setInterval :: "callback \<Rightarrow> nat \<Rightarrow> agent_world \<Rightarrow> timer_handle \<times> agent_world" where
  "setInterval cb ms w =
     (Timeout (next_handle w),
      w\<lparr>intervals := intervals w @ [(next_handle w, cb, ms)],
        next_handle := Suc (next_handle w)\<rparr>)"

definition clearImmediate :: "timer_handle \<Rightarrow> agent_world \<Rightarrow> agent_world" where
  "clearImmediate h w =
     (case h of
        Immediate n \<Rightarrow> w\<lparr>immediates := removeAll n (immediates w)\<rparr>
      | Timeout n \<Rightarrow> w\<lparr>intervals := filter (\<lambda>(i, cb, ms). i \<noteq> n) (intervals w)\<rparr>)"

fun run_callback :: "callback \<Rightarrow> agent_world \<Rightarrow> agent_world" where
  "run_callback (SendRefresh connection) w = connection_send connection ClientTokenRefresh w"

text \<open>One period goes by: the runtime calls the callback of every interval timer that is
  still armed.\<close>

definition interval_elapsed :: "agent_world \<Rightarrow> agent_world" where
  "interval_elapsed w = fold (\<lambda>(n, cb, ms). run_callback cb) (intervals w) w"

subsection \<open>Token persistence and setup\<close>

text \<open>
  \<^verbatim>\<open>loadToken\<close> reads the token file and, when it exists, the expiry file; any throw is
  caught and answered with \<^verbatim>\<open>false\<close>. \<^verbatim>\<open>saveToken\<close> writes the token and, when
  \<^verbatim>\<open>tokenExpires\<close> is set, the expiry (a loaded expiry is a buffer, truthy whatever its
  content); writing to a \<^verbatim>\<open>null\<close> path or writing a \<^verbatim>\<open>null\<close> token throws. The
  \<^verbatim>\<open>token.issue\<close> handler, the other writer of these variables, is outside the properties
  proved here.
\<close>

definition loadToken :: "agent_world \<Rightarrow> bool \<times> agent_world" where
  "loadToken w =
     (case tokenPath w of
        None \<Rightarrow> (False, w)
      | Some tp \<Rightarrow>
          (case files w tp of
             None \<Rightarrow> (False, w)
           | Some content \<Rightarrow>
               (let w1 = w\<lparr>token := Some content\<rparr>
                in case tokenExpirationPath w1 of
                     None \<Rightarrow> (True, w1)
                   | Some ep \<Rightarrow>
                       (case files w1 ep of
                          None \<Rightarrow> (True, w1)
                        | Some e \<Rightarrow> (True, w1\<lparr>tokenExpires := Some e\<rparr>)))))"

definition saveToken :: "agent_world \<Rightarrow> js_error + agent_world" where
  "saveToken w =
     (case tokenPath w of
        None \<Rightarrow> Inl TypeError
      | Some tp \<Rightarrow>
          (case token w of
             None \<Rightarrow> Inl TypeError
           | Some t \<Rightarrow>
               (let w1 = writeFileSync tp t w
                in case tokenExpires w1 of
                     None \<Rightarrow> Inr w1
                   | Some e \<Rightarrow>
                       (case tokenExpirationPath w1 of
                          None \<Rightarrow> Inl TypeError
                        | Some ep \<Rightarrow> Inr (writeFileSync ep e w1)))))"

definition getToken :: "agent_world \<Rightarrow> string option" where
  "getToken w = token w"

text \<open>
  \<^verbatim>\<open>module.exports.setup\<close> of the agent (the name \<open>setup\<close> is taken in Isabelle).
  The first branch is taken when no token file exists, or when
  \<^verbatim>\<open>core.args\<close> is present with \<^verbatim>\<open>force\<close> and one of \<^verbatim>\<open>token\<close>, \<^verbatim>\<open>tokenFile\<close>. Inside
  it \<^verbatim>\<open>core.args.token\<close> is read without the presence test, which throws when
  \<^verbatim>\<open>core.args\<close> is missing. The console messages of the second branch are not modelled.
\<close>

definition agent_setup :: "core \<Rightarrow> agent_world \<Rightarrow> js_error + agent_world" where
  "agent_setup c w =
     (let w1 = w\<lparr>tokenPath := Some (stateDir c @ ''/token''),
                 tokenExpirationPath := Some (stateDir c @ ''/token.expiration'')\<rparr>
      in if \<not> existsSync (stateDir c @ ''/token'') w1 \<or>
            (case core_args c of
               None \<Rightarrow> False
             | Some a \<Rightarrow> args_force a \<and> (truthy (args_token a) \<or> truthy (args_tokenFile a)))
         then (case core_args c of
                 None \<Rightarrow> Inl TypeError
               | Some a \<Rightarrow>
                   if truthy (args_token a)
                   then saveToken (w1\<lparr>token := Some (str_of (args_token a))\<rparr>)
                   else if truthy (args_tokenFile a) \<and>
                           existsSync (str_of (args_tokenFile a)) w1
                   then saveToken (w1\<lparr>token := files w1 (str_of (args_tokenFile a))\<rparr>)
                   else if truthy (settings_token (core_settings c))
                   then saveToken (w1\<lparr>token := Some (str_of (settings_token (core_settings c)))\<rparr>)
                   else Inl (Error ''No token set provided.''))
         else Inr (snd (loadToken w1)))"

subsection \<open>Connection hooks\<close>

text \<open>
  \<^verbatim>\<open>onConnect\<close> sends a refresh request at once and arms an interval of
  \<^verbatim>\<open>8 * 3600 * 1000\<close> milliseconds whose callback sends another; the handle goes to
  \<^verbatim>\<open>tokenRefreshInterval\<close>. \<^verbatim>\<open>onDisconnect\<close> passes a set handle to
  \<^verbatim>\<open>clearImmediate\<close>.
\<close>

definition onConnect :: "nat \<Rightarrow> agent_world \<Rightarrow> agent_world" where
  "onConnect connection w =
     (let w1 = connection_send connection ClientTokenRefresh w;
          (h, w2) = setInterval (SendRefresh connection) (8 * 3600 * 1000) w1
      in w2\<lparr>tokenRefreshInterval := Some h\<rparr>)"

definition onDisconnect :: "agent_world \<Rightarrow> agent_world" where
  "onDisconnect w =
     (case tokenRefreshInterval w of
        None \<Rightarrow> w
      | Some h \<Rightarrow> clearImmediate h w)"

section \<open>Example instances\<close>

definition empty_state :: server_state where
  "empty_state = \<lparr>clientRecords = [], tokenRecords = []\<rparr>"

definition demo_client :: client_record where
  "demo_client = \<lparr>cr_id = Str ''agent-42'', cr_created = 1, cr_tokenId = Str ''T'',
                   cr_updated = Some 2, cr_state = Undefined\<rparr>"

definition demo_token :: token_record where
  "demo_token = \<lparr>tr_id = Str ''T'', tr_subject = Str ''agent-42'', tr_expires = 30\<rparr>"

definition demo_state :: server_state where
  "demo_state = \<lparr>clientRecords = [demo_client], tokenRecords = [demo_token]\<rparr>"

text \<open>
  A server history under the generator above: \<^verbatim>\<open>agent-42\<close> is provisioned, asks for a
  refresh over its connection, and is then deprovisioned.
\<close>

definition provisioned_state :: server_state where
  "provisioned_state = snd (provisionClient replacing_authority 1 2 (Str ''agent-42'') empty_state)"

definition refreshed_state :: server_state where
  "refreshed_state =
     snd (messages_token_refresh replacing_authority (Str ''agent-42'') provisioned_state)"

definition deprovisioned_state :: server_state where
  "deprovisioned_state = snd (deprovisionClient (Str ''agent-42'') refreshed_state)"

text \<open>A registry with two clients, each with its own token.\<close>

definition client_a :: client_record where
  "client_a = \<lparr>cr_id = Str ''a'', cr_created = 1, cr_tokenId = Str ''TA'',
                 cr_updated = Some 1, cr_state = Undefined\<rparr>"

definition client_b :: client_record where
  "client_b = \<lparr>cr_id = Str ''b'', cr_created = 2, cr_tokenId = Str ''TB'',
                 cr_updated = Some 2, cr_state = Undefined\<rparr>"

definition token_a :: token_record where
  "token_a = \<lparr>tr_id = Str ''TA'', tr_subject = Str ''a'', tr_expires = 30\<rparr>"

definition token_b :: token_record where
  "token_b = \<lparr>tr_id = Str ''TB'', tr_subject = Str ''b'', tr_expires = 30\<rparr>"

definition two_clients :: server_state where
  "two_clients = \<lparr>clientRecords = [client_a, client_b], tokenRecords = [token_a, token_b]\<rparr>"

text \<open>
  Agent inputs: a start with no \<^verbatim>\<open>core.args\<close> and a configured fallback token, and a
  start with a token on the command line, no \<^verbatim>\<open>force\<close>, and a token already installed.
\<close>

definition fallback_core :: core where
  "fallback_core =
     \<lparr>stateDir = ''state'', core_args = None,
      core_settings = \<lparr>settings_token = Str ''FALLBACK''\<rparr>\<rparr>"

definition cli_core :: core where
  "cli_core =
     \<lparr>stateDir = ''state'',
      core_args = Some \<lparr>args_token = Str ''CLI'', args_tokenFile = Undefined,
                        args_force = False\<rparr>,
      core_settings = \<lparr>settings_token = Undefined\<rparr>\<rparr>"

definition fresh_world :: agent_world where
  "fresh_world =
     \<lparr>tokenPath = None, tokenExpirationPath = None, token = None, tokenExpires = None,
      tokenRefreshInterval = None, files = Map.empty, intervals = [], immediates = [],
      next_handle = 0, sent = []\<rparr>"

definition installed_world :: agent_world where
  "installed_world =
     fresh_world\<lparr>files := [''state/token'' \<mapsto> ''PERSISTED'',
                           ''state/token.expiration'' \<mapsto> ''2026-12-01'']\<rparr>"

section \<open>Deprovisioning\<close>

lemma findOne_None_iff: "findOne p xs = None \<longleftrightarrow> (\<forall>x \<in> set xs. \<not> p x)"
  by (auto simp: findOne_def find_None_iff)

lemma findOne_SomeD: "findOne p xs = Some x \<Longrightarrow> p x \<and> x \<in> set xs"
  by (auto simp: findOne_def find_Some_iff)

lemma getClient_None_iff:
  "getClient c st = None \<longleftrightarrow> (\<forall>r \<in> set (clientRecords st). cr_id r \<noteq> c)"
  by (simp add: getClient_def findOne_None_iff)

lemma getClient_SomeD:
  "getClient c st = Some client \<Longrightarrow> cr_id client = c \<and> client \<in> set (clientRecords st)"
  using findOne_SomeD [of "\<lambda>r. cr_id r = c" "clientRecords st" client]
  by (simp add: getClient_def)

text \<open>
  \<^verbatim>\<open>findOne\<close> and \<^verbatim>\<open>deleteOne\<close> with the same filter pick the same document: the first
  match. What comes before it has no match, and deleting leaves the documents before and
  after it, in order.
\<close>

lemma first_match_split:
  "\<exists>x \<in> set xs. p x \<Longrightarrow>
   \<exists>before b after. xs = before @ b # after \<and> p b \<and> (\<forall>a \<in> set before. \<not> p a) \<and>
     findOne p xs = Some b \<and> deleteOne p xs = before @ after"
proof (induction xs)
  case Nil
  then show ?case by simp
next
  case (Cons x xs)
  show ?case
  proof (cases "p x")
    case True
    then have "x # xs = [] @ x # xs \<and> p x \<and> (\<forall>a \<in> set []. \<not> p a) \<and>
        findOne p (x # xs) = Some x \<and> deleteOne p (x # xs) = [] @ xs"
      by (simp add: findOne_def)
    then show ?thesis by blast
  next
    case False
    with Cons.prems have "\<exists>y \<in> set xs. p y" by auto
    then obtain before b after where
      "xs = before @ b # after" "p b" "\<forall>a \<in> set before. \<not> p a"
      "findOne p xs = Some b" "deleteOne p xs = before @ after"
      using Cons.IH by blast
    with False have "x # xs = (x # before) @ b # after \<and> p b \<and>
        (\<forall>a \<in> set (x # before). \<not> p a) \<and>
        findOne p (x # xs) = Some b \<and> deleteOne p (x # xs) = (x # before) @ after"
      by (simp add: findOne_def)
    then show ?thesis by blast
  qed
qed

lemma deleteOne_no_match: "\<forall>x \<in> set xs. \<not> p x \<Longrightarrow> deleteOne p xs = xs"
  by (induction xs) auto

lemma first_match_unique:
  "before @ b # after = before' @ b' # after' \<Longrightarrow> p b \<Longrightarrow> p b' \<Longrightarrow>
   \<forall>a \<in> set before. \<not> p a \<Longrightarrow> \<forall>a \<in> set before'. \<not> p a \<Longrightarrow>
   before = before' \<and> b = b' \<and> after = after'"
proof (induction before arbitrary: before')
  case Nil
  then show ?case by (cases before') auto
next
  case (Cons x before)
  then show ?case by (cases before') auto
qed

text \<open>
  C5. \<^verbatim>\<open>deprovisionClient(c)\<close> returns false and leaves both collections as they were
  when no client document has id \<open>c\<close>. When one exists, the result is true and the client
  collection loses exactly the first document with id \<open>c\<close>: the documents before it (none
  of which has id \<open>c\<close>) and after it stay, in order. When that document has a truthy
  \<^verbatim>\<open>tokenId\<close> and the token collection holds a document with that id, the token collection
  loses exactly the first such document; otherwise it is unchanged.
\<close>

theorem deprovisionClient_spec:
  "((\<forall>r \<in> set (clientRecords st). cr_id r \<noteq> c) \<longrightarrow>
      deprovisionClient c st = (False, st)) \<and>
   ((\<exists>r \<in> set (clientRecords st). cr_id r = c) \<longrightarrow>
      (\<exists>before client after.
         clientRecords st = before @ client # after \<and> cr_id client = c \<and>
         (\<forall>r \<in> set before. cr_id r \<noteq> c) \<and>
         fst (deprovisionClient c st) = True \<and>
         clientRecords (snd (deprovisionClient c st)) = before @ after \<and>
         (truthy (cr_tokenId client) \<and>
          (\<exists>t \<in> set (tokenRecords st). tr_id t = cr_tokenId client) \<longrightarrow>
            (\<exists>tbefore tok tafter.
               tokenRecords st = tbefore @ tok # tafter \<and> tr_id tok = cr_tokenId client \<and>
               (\<forall>t \<in> set tbefore. tr_id t \<noteq> cr_tokenId client) \<and>
               tokenRecords (snd (deprovisionClient c st)) = tbefore @ tafter)) \<and>
         (\<not> (truthy (cr_tokenId client) \<and>
             (\<exists>t \<in> set (tokenRecords st). tr_id t = cr_tokenId client)) \<longrightarrow>
            tokenRecords (snd (deprovisionClient c st)) = tokenRecords st)))"
proof (intro conjI impI)
  assume "\<forall>r \<in> set (clientRecords st). cr_id r \<noteq> c"
  then have "getClient c st = None"
    by (simp add: getClient_None_iff)
  then show "deprovisionClient c st = (False, st)"
    by (simp add: deprovisionClient_def)
next
  assume "\<exists>r \<in> set (clientRecords st). cr_id r = c"
  then obtain before client after where
    split: "clientRecords st = before @ client # after"
    and idc: "cr_id client = c"
    and first: "\<forall>r \<in> set before. cr_id r \<noteq> c"
    and found: "findOne (\<lambda>r. cr_id r = c) (clientRecords st) = Some client"
    and del: "deleteOne (\<lambda>r. cr_id r = c) (clientRecords st) = before @ after"
    using first_match_split [of "clientRecords st" "\<lambda>r. cr_id r = c"] by blast
  from found have get: "getClient c st = Some client"
    by (simp add: getClient_def)
  have res: "fst (deprovisionClient c st) = True"
    using get by (simp add: deprovisionClient_def Let_def)
  have clients: "clientRecords (snd (deprovisionClient c st)) = before @ after"
    using get idc del by (simp add: deprovisionClient_def Let_def)
  have tokens: "tokenRecords (snd (deprovisionClient c st)) =
      (if truthy (cr_tokenId client)
       then deleteOne (\<lambda>t. tr_id t = cr_tokenId client) (tokenRecords st)
       else tokenRecords st)"
    using get by (simp add: deprovisionClient_def Let_def)
  have with_token: "truthy (cr_tokenId client) \<and>
          (\<exists>t \<in> set (tokenRecords st). tr_id t = cr_tokenId client) \<longrightarrow>
            (\<exists>tbefore tok tafter.
               tokenRecords st = tbefore @ tok # tafter \<and> tr_id tok = cr_tokenId client \<and>
               (\<forall>t \<in> set tbefore. tr_id t \<noteq> cr_tokenId client) \<and>
               tokenRecords (snd (deprovisionClient c st)) = tbefore @ tafter)"
  proof
    assume a: "truthy (cr_tokenId client) \<and>
          (\<exists>t \<in> set (tokenRecords st). tr_id t = cr_tokenId client)"
    then obtain tbefore tok tafter where
      "tokenRecords st = tbefore @ tok # tafter" "tr_id tok = cr_tokenId client"
      "\<forall>t \<in> set tbefore. tr_id t \<noteq> cr_tokenId client"
      "deleteOne (\<lambda>t. tr_id t = cr_tokenId client) (tokenRecords st) = tbefore @ tafter"
      using first_match_split [of "tokenRecords st" "\<lambda>t. tr_id t = cr_tokenId client"]
      by blast
    with a tokens show "\<exists>tbefore tok tafter.
               tokenRecords st = tbefore @ tok # tafter \<and> tr_id tok = cr_tokenId client \<and>
               (\<forall>t \<in> set tbefore. tr_id t \<noteq> cr_tokenId client) \<and>
               tokenRecords (snd (deprovisionClient c st)) = tbefore @ tafter"
      by auto
  qed
  have without_token: "\<not> (truthy (cr_tokenId client) \<and>
             (\<exists>t \<in> set (tokenRecords st). tr_id t = cr_tokenId client)) \<longrightarrow>
            tokenRecords (snd (deprovisionClient c st)) = tokenRecords st"
    using tokens
      deleteOne_no_match [of "tokenRecords st" "\<lambda>t. tr_id t = cr_tokenId client"]
    by auto
  from split idc first res clients with_token without_token
  show "\<exists>before client after.
         clientRecords st = before @ client # after \<and> cr_id client = c \<and>
         (\<forall>r \<in> set before. cr_id r \<noteq> c) \<and>
         fst (deprovisionClient c st) = True \<and>
         clientRecords (snd (deprovisionClient c st)) = before @ after \<and>
         (truthy (cr_tokenId client) \<and>
          (\<exists>t \<in> set (tokenRecords st). tr_id t = cr_tokenId client) \<longrightarrow>
            (\<exists>tbefore tok tafter.
               tokenRecords st = tbefore @ tok # tafter \<and> tr_id tok = cr_tokenId client \<and>
               (\<forall>t \<in> set tbefore. tr_id t \<noteq> cr_tokenId client) \<and>
               tokenRecords (snd (deprovisionClient c st)) = tbefore @ tafter)) \<and>
         (\<not> (truthy (cr_tokenId client) \<and>
             (\<exists>t \<in> set (tokenRecords st). tr_id t = cr_tokenId client)) \<longrightarrow>
            tokenRecords (snd (deprovisionClient c st)) = tokenRecords st)"
    by blast
qed

text \<open>
  In the registry with clients \<open>a\<close> and \<open>b\<close>: an unknown id changes nothing; deprovisioning
  \<open>b\<close> removes the second client document and the second token document and keeps those
  of \<open>a\<close>.
\<close>

theorem deprovisionClient_spec_witness:
  "deprovisionClient (Str ''other'') two_clients = (False, two_clients) \<and>
   fst (deprovisionClient (Str ''b'') two_clients) = True \<and>
   clientRecords (snd (deprovisionClient (Str ''b'') two_clients)) = [client_a] \<and>
   tokenRecords (snd (deprovisionClient (Str ''b'') two_clients)) = [token_a]"
proof -
  note th_other = deprovisionClient_spec [of two_clients "Str ''other''", THEN conjunct1, THEN mp]
  note th_b = deprovisionClient_spec [of two_clients "Str ''b''", THEN conjunct2, THEN mp]
  have absent: "\<forall>r \<in> set (clientRecords two_clients). cr_id r \<noteq> Str ''other''"
    by (simp add: two_clients_def client_a_def client_b_def)
  have r1: "deprovisionClient (Str ''other'') two_clients = (False, two_clients)"
    by (rule th_other) (rule absent)
  have present: "\<exists>r \<in> set (clientRecords two_clients). cr_id r = Str ''b''"
    by (simp add: two_clients_def client_b_def)
  from th_b [OF present] obtain before client after where
    split: "clientRecords two_clients = before @ client # after"
    and idc: "cr_id client = Str ''b''"
    and first: "\<forall>r \<in> set before. cr_id r \<noteq> Str ''b''"
    and res: "fst (deprovisionClient (Str ''b'') two_clients) = True"
    and clients: "clientRecords (snd (deprovisionClient (Str ''b'') two_clients)) = before @ after"
    and with_token: "truthy (cr_tokenId client) \<and>
          (\<exists>t \<in> set (tokenRecords two_clients). tr_id t = cr_tokenId client) \<longrightarrow>
            (\<exists>tbefore tok tafter.
               tokenRecords two_clients = tbefore @ tok # tafter \<and>
               tr_id tok = cr_tokenId client \<and>
               (\<forall>t \<in> set tbefore. tr_id t \<noteq> cr_tokenId client) \<and>
               tokenRecords (snd (deprovisionClient (Str ''b'') two_clients)) =
                 tbefore @ tafter)"
    by blast
  have "[client_a] @ client_b # [] = before @ client # after"
    using split by (simp add: two_clients_def)
  then have which: "[client_a] = before \<and> client_b = client \<and> [] = after"
    by (rule first_match_unique [where p = "\<lambda>r. cr_id r = Str ''b''"])
       (simp_all add: idc first client_a_def client_b_def)
  with clients have r3: "clientRecords (snd (deprovisionClient (Str ''b'') two_clients)) =
      [client_a]"
    by auto
  have tokid: "cr_tokenId client = Str ''TB''"
    using which by (auto simp: client_b_def)
  have "truthy (cr_tokenId client) \<and>
          (\<exists>t \<in> set (tokenRecords two_clients). tr_id t = cr_tokenId client)"
    by (simp add: tokid two_clients_def token_b_def)
  with with_token obtain tbefore tok tafter where
    tsplit: "tokenRecords two_clients = tbefore @ tok # tafter"
    and tid: "tr_id tok = Str ''TB''"
    and tfirst: "\<forall>t \<in> set tbefore. tr_id t \<noteq> Str ''TB''"
    and tokens: "tokenRecords (snd (deprovisionClient (Str ''b'') two_clients)) =
                   tbefore @ tafter"
    unfolding tokid by blast
  have "[token_a] @ token_b # [] = tbefore @ tok # tafter"
    using tsplit by (simp add: two_clients_def)
  then have "[token_a] = tbefore \<and> token_b = tok \<and> [] = tafter"
    by (rule first_match_unique [where p = "\<lambda>t. tr_id t = Str ''TB''"])
       (simp_all add: tid tfirst token_a_def token_b_def)
  with tokens have r4: "tokenRecords (snd (deprovisionClient (Str ''b'') two_clients)) =
      [token_a]"
    by auto
  from r1 res r3 r4 show ?thesis by simp
qed

section \<open>Provisioning and verification\<close>

lemma find_replaceOne:
  "p y \<Longrightarrow> List.find p (replaceOne p y xs) = map_option (\<lambda>_. y) (List.find p xs)"
  by (induction xs) auto

lemma find_replaceOne_other:
  "c' \<noteq> c \<Longrightarrow> cr_id y = c \<Longrightarrow>
   List.find (\<lambda>r. cr_id r = c') (replaceOne (\<lambda>r. cr_id r = c) y xs) =
   List.find (\<lambda>r. cr_id r = c') xs"
  by (induction xs) auto

lemma find_insertOne:
  "List.find p (insertOne r xs) =
     (case List.find p xs of None \<Rightarrow> (if p r then Some r else None) | Some x \<Rightarrow> Some x)"
  by (induction xs) (auto simp: insertOne_def)

lemma provisionClient_token:
  "fst (provisionClient ta tc tu c st) = m_token (fst (tokens_newToken ta (tokenRecords st) c))"
  by (simp add: provisionClient_def Let_def split_beta split: option.splits)

lemma provisionClient_tokenRecords:
  "tokenRecords (snd (provisionClient ta tc tu c st)) =
     snd (tokens_newToken ta (tokenRecords st) c)"
  by (simp add: provisionClient_def Let_def split_beta split: option.splits)

lemma provisionClient_getClient:
  "\<exists>r. getClient c (snd (provisionClient ta tc tu c st)) = Some r \<and>
       cr_id r = c \<and>
       cr_tokenId r = tr_id (m_record (fst (tokens_newToken ta (tokenRecords st) c))) \<and>
       cr_updated r = Some tu"
proof (cases "getClient c st")
  case None
  then show ?thesis
    by (simp add: provisionClient_def Let_def split_beta
        getClient_def findOne_def find_replaceOne find_insertOne)
next
  case (Some client)
  then have "cr_id client = c"
    using getClient_SomeD by blast
  with Some show ?thesis
    by (simp add: provisionClient_def Let_def split_beta
        getClient_def findOne_def find_replaceOne)
qed

lemma provisionClient_getClient_other:
  assumes "c' \<noteq> c"
  shows "getClient c' (snd (provisionClient ta tc tu c st)) = getClient c' st"
proof (cases "getClient c st")
  case None
  with assms show ?thesis
    by (simp add: provisionClient_def Let_def split_beta getClient_def findOne_def
        find_replaceOne_other find_insertOne split: option.splits)
next
  case (Some client)
  then have "cr_id client = c"
    using getClient_SomeD by blast
  with Some assms show ?thesis
    by (simp add: provisionClient_def Let_def split_beta getClient_def findOne_def
        find_replaceOne_other)
qed

lemma verifyToken_failed_iff:
  "(\<exists>s m. verifyToken ta presented st = AuthenticationFailed s m) =
     (\<not> v_success (tokens_verifyToken ta (tokenRecords st) presented))"
  by (simp add: verifyToken_def Let_def)

subsection \<open>The generator with one record per subject\<close>

lemma id_length_le:
  "t \<in> set store \<Longrightarrow> id_length t \<le> foldr (\<lambda>t. max (id_length t)) store 0"
  by (induction store) auto

lemma fresh_id_new: "t \<in> set store \<Longrightarrow> tr_id t \<noteq> Str (fresh_id store)"
proof
  assume mem: "t \<in> set store" and eq: "tr_id t = Str (fresh_id store)"
  from eq have "id_length t = Suc (foldr (\<lambda>t. max (id_length t)) store 0)"
    by (simp add: id_length_def fresh_id_def)
  with id_length_le [OF mem] show False
    by simp
qed

lemma upsertOne_mem: "y \<in> set (upsertOne p y xs)"
  by (induction xs) auto

lemma upsertOne_subset: "set (upsertOne p y xs) \<subseteq> insert y (set xs)"
  by (induction xs) auto

lemma upsertOne_twice: "p z \<Longrightarrow> set (upsertOne p y (upsertOne p z xs)) \<subseteq> insert y (set xs)"
  by (induction xs) auto

lemma find_the_only:
  "y \<in> set xs \<Longrightarrow> q y \<Longrightarrow> \<forall>t \<in> set xs. q t \<longrightarrow> t = y \<Longrightarrow> List.find q xs = Some y"
proof (induction xs)
  case Nil
  then show ?case by simp
next
  case (Cons x xs)
  show ?case
  proof (cases "q x")
    case True
    with Cons.prems(3) have "x = y" by simp
    with True show ?thesis by simp
  next
    case False
    with Cons.prems(1,2) have mem: "y \<in> set xs" by auto
    from Cons.prems(3) have rest: "\<forall>t \<in> set xs. q t \<longrightarrow> t = y" by simp
    have "List.find q xs = Some y"
      by (rule Cons.IH [OF mem Cons.prems(2) rest])
    with False show ?thesis by simp
  qed
qed

lemma replacing_newToken:
  "tokens_newToken replacing_authority store c =
     (\<lparr>m_token = fresh_id store,
       m_record = \<lparr>tr_id = Str (fresh_id store), tr_subject = c, tr_expires = 30\<rparr>\<rparr>,
      upsertOne (\<lambda>t. tr_subject t = c)
        \<lparr>tr_id = Str (fresh_id store), tr_subject = c, tr_expires = 30\<rparr> store)"
  by (simp add: replacing_authority_def Let_def)

lemma replacing_verify_unknown:
  "\<forall>t \<in> set store. tr_id t \<noteq> Str presented \<Longrightarrow>
   tokens_verifyToken replacing_authority store presented =
     \<lparr>v_success = False, v_subject = Undefined,
      v_status = ''invalid'', v_reason = ''unknown token''\<rparr>"
proof -
  assume "\<forall>t \<in> set store. tr_id t \<noteq> Str presented"
  then have "List.find (\<lambda>t. tr_id t = Str presented) store = None"
    by (simp add: find_None_iff)
  then show ?thesis
    by (simp add: replacing_authority_def)
qed

lemma replacing_verifyToken:
  "tokens_verifyToken replacing_authority store presented =
     (case List.find (\<lambda>t. tr_id t = Str presented) store of
        Some t \<Rightarrow> \<lparr>v_success = True, v_subject = tr_subject t,
                    v_status = ''ok'', v_reason = []\<rparr>
      | None \<Rightarrow> \<lparr>v_success = False, v_subject = Undefined,
                  v_status = ''invalid'', v_reason = ''unknown token''\<rparr>)"
  by (simp add: replacing_authority_def)

lemma replacing_verify_minted:
  "v_success (tokens_verifyToken replacing_authority
               (snd (tokens_newToken replacing_authority store c))
               (m_token (fst (tokens_newToken replacing_authority store c)))) \<and>
   v_subject (tokens_verifyToken replacing_authority
               (snd (tokens_newToken replacing_authority store c))
               (m_token (fst (tokens_newToken replacing_authority store c)))) = c"
proof -
  let ?rec = "\<lparr>tr_id = Str (fresh_id store), tr_subject = c, tr_expires = 30\<rparr>"
  let ?store' = "upsertOne (\<lambda>t. tr_subject t = c) ?rec store"
  have only: "\<forall>t \<in> set ?store'. tr_id t = Str (fresh_id store) \<longrightarrow> t = ?rec"
  proof (intro ballI impI)
    fix t
    assume mem: "t \<in> set ?store'" and idt: "tr_id t = Str (fresh_id store)"
    from mem have "t = ?rec \<or> t \<in> set store"
      using upsertOne_subset [of "\<lambda>t. tr_subject t = c" ?rec store] by blast
    then show "t = ?rec"
    proof
      assume "t = ?rec"
      then show ?thesis .
    next
      assume "t \<in> set store"
      then have "tr_id t \<noteq> Str (fresh_id store)"
        by (rule fresh_id_new)
      with idt show ?thesis by simp
    qed
  qed
  have found: "List.find (\<lambda>t. tr_id t = Str (fresh_id store)) ?store' = Some ?rec"
  proof (rule find_the_only)
    show "?rec \<in> set ?store'"
      by (rule upsertOne_mem)
    show "tr_id ?rec = Str (fresh_id store)"
      by simp
    show "\<forall>t \<in> set ?store'. tr_id t = Str (fresh_id store) \<longrightarrow> t = ?rec"
      by (rule only)
  qed
  show ?thesis
    unfolding replacing_newToken replacing_verifyToken
    by (simp add: found)
qed

lemma replacing_superseded:
  "\<forall>t \<in> set (snd (tokens_newToken replacing_authority
                    (snd (tokens_newToken replacing_authority store c)) c)).
     tr_id t \<noteq> Str (m_token (fst (tokens_newToken replacing_authority store c)))"
proof
  fix t
  let ?rec1 = "\<lparr>tr_id = Str (fresh_id store), tr_subject = c, tr_expires = 30\<rparr>"
  let ?s1 = "upsertOne (\<lambda>t. tr_subject t = c) ?rec1 store"
  let ?rec2 = "\<lparr>tr_id = Str (fresh_id ?s1), tr_subject = c, tr_expires = 30\<rparr>"
  have name1: "m_token (fst (tokens_newToken replacing_authority store c)) = fresh_id store"
    by (simp add: replacing_newToken)
  assume "t \<in> set (snd (tokens_newToken replacing_authority
                    (snd (tokens_newToken replacing_authority store c)) c))"
  then have "t \<in> set (upsertOne (\<lambda>t. tr_subject t = c) ?rec2 ?s1)"
    by (simp add: replacing_newToken)
  then have cases: "t = ?rec2 \<or> t \<in> set store"
    using upsertOne_twice [of "\<lambda>t. tr_subject t = c" ?rec1 ?rec2 store] by auto
  have "tr_id ?rec1 \<noteq> Str (fresh_id ?s1)"
    by (rule fresh_id_new) (rule upsertOne_mem)
  then have new2: "fresh_id ?s1 \<noteq> fresh_id store"
    by simp
  from cases have "tr_id t \<noteq> Str (fresh_id store)"
  proof
    assume "t = ?rec2"
    with new2 show ?thesis by simp
  next
    assume "t \<in> set store"
    then show ?thesis by (rule fresh_id_new)
  qed
  then show "tr_id t \<noteq> Str (m_token (fst (tokens_newToken replacing_authority store c)))"
    unfolding name1 .
qed

lemma provisioned_state_eq:
  "provisioned_state = demo_state"
  by (simp add: provisioned_state_def provisionClient_def replacing_authority_def
      empty_state_def getClient_def findOne_def insertOne_def Let_def fresh_id_def
      demo_state_def demo_client_def demo_token_def)

lemma refreshed_state_eq:
  "refreshed_state =
     \<lparr>clientRecords = [demo_client],
      tokenRecords = [\<lparr>tr_id = Str ''T+'', tr_subject = Str ''agent-42'', tr_expires = 30\<rparr>]\<rparr>"
  by (simp add: refreshed_state_def provisioned_state_eq messages_token_refresh_def
      replacing_authority_def Let_def demo_state_def demo_token_def fresh_id_def id_length_def)

lemma deprovisioned_state_eq:
  "deprovisioned_state =
     \<lparr>clientRecords = [],
      tokenRecords = [\<lparr>tr_id = Str ''T+'', tr_subject = Str ''agent-42'', tr_expires = 30\<rparr>]\<rparr>"
  by (simp add: deprovisioned_state_def refreshed_state_eq deprovisionClient_def
      getClient_def findOne_def Let_def demo_client_def)

text \<open>
  C1 does not hold of the code. Whenever the token generator accepts the presented token
  and no client document has the token's subject as id, \<^verbatim>\<open>verifyToken\<close> answers
  \<^verbatim>\<open>state: 'success'\<close> with \<^verbatim>\<open>client: null\<close>; it answers an authentication failure exactly
  when the generator's own verification fails. This holds for every generator.
\<close>

theorem verifyToken_unknown_subject:
  "(v_success (tokens_verifyToken ta (tokenRecords st) presented) \<and>
    getClient (v_subject (tokens_verifyToken ta (tokenRecords st) presented)) st = None
      \<longrightarrow> verifyToken ta presented st = Success None) \<and>
   ((\<exists>s m. verifyToken ta presented st = AuthenticationFailed s m) =
      (\<not> v_success (tokens_verifyToken ta (tokenRecords st) presented)))"
  by (simp add: verifyToken_def Let_def)

text \<open>
  The failing input: \<^verbatim>\<open>agent-42\<close> is provisioned (token \<^verbatim>\<open>T\<close>), refreshes over its
  connection (token \<^verbatim>\<open>T+\<close>, whose record takes the place of the record of \<^verbatim>\<open>T\<close> while the
  client document keeps \<^verbatim>\<open>tokenId = T\<close>) and is deprovisioned (the client document goes,
  no token document has id \<^verbatim>\<open>T\<close>). The generator still accepts \<^verbatim>\<open>T+\<close>, no client is
  left for its subject, and the answer is success without a client.
\<close>

theorem verifyToken_unknown_subject_witness:
  "v_success (tokens_verifyToken replacing_authority (tokenRecords deprovisioned_state) ''T+'') \<and>
   getClient (v_subject (tokens_verifyToken replacing_authority
                (tokenRecords deprovisioned_state) ''T+'')) deprovisioned_state = None \<and>
   getClient (Str ''agent-42'') deprovisioned_state = None \<and>
   verifyToken replacing_authority ''T+'' deprovisioned_state = Success None"
proof -
  have ok: "v_success (tokens_verifyToken replacing_authority
              (tokenRecords deprovisioned_state) ''T+'')"
    by (simp add: deprovisioned_state_eq replacing_authority_def)
  have gone: "getClient (v_subject (tokens_verifyToken replacing_authority
                (tokenRecords deprovisioned_state) ''T+'')) deprovisioned_state = None"
    by (simp add: deprovisioned_state_eq getClient_def findOne_def)
  have gone': "getClient (Str ''agent-42'') deprovisioned_state = None"
    by (simp add: deprovisioned_state_eq getClient_def findOne_def)
  note th = verifyToken_unknown_subject
    [of replacing_authority deprovisioned_state "''T+''", THEN conjunct1, THEN mp]
  have "verifyToken replacing_authority ''T+'' deprovisioned_state = Success None"
    by (rule th) (simp add: ok gone)
  with ok gone gone' show ?thesis by simp
qed

text \<open>
  C4. For every client identity \<open>c\<close> and every registry, when \<^verbatim>\<open>provisionClient(c)\<close> is
  called twice, \<^verbatim>\<open>verifyToken\<close> of the token returned by the first call fails afterwards
  with an authentication failure, the token returned by the second call verifies and
  resolves to the client \<open>c\<close>, and that client's \<^verbatim>\<open>tokenId\<close> is the id of the second token.
  The token generator is the one with one record per subject.
\<close>

theorem provision_twice:
  "verifyToken replacing_authority
     (fst (provisionClient replacing_authority tc tu c st))
     (snd (provisionClient replacing_authority tc' tu' c
            (snd (provisionClient replacing_authority tc tu c st)))) =
     AuthenticationFailed ''invalid'' ''unknown token'' \<and>
   (\<exists>client.
      verifyToken replacing_authority
        (fst (provisionClient replacing_authority tc' tu' c
               (snd (provisionClient replacing_authority tc tu c st))))
        (snd (provisionClient replacing_authority tc' tu' c
               (snd (provisionClient replacing_authority tc tu c st)))) =
        Success (Some client) \<and>
      cr_id client = c \<and>
      cr_tokenId client =
        Str (fst (provisionClient replacing_authority tc' tu' c
                   (snd (provisionClient replacing_authority tc tu c st)))))"
proof
  let ?ta = replacing_authority
  let ?p1 = "provisionClient ?ta tc tu c st"
  let ?p2 = "provisionClient ?ta tc' tu' c (snd ?p1)"
  have tok1: "fst ?p1 = m_token (fst (tokens_newToken ?ta (tokenRecords st) c))"
    by (rule provisionClient_token)
  have store2: "tokenRecords (snd ?p2) =
      snd (tokens_newToken ?ta (snd (tokens_newToken ?ta (tokenRecords st) c)) c)"
    by (simp add: provisionClient_tokenRecords)
  have "\<forall>t \<in> set (tokenRecords (snd ?p2)). tr_id t \<noteq> Str (fst ?p1)"
    unfolding tok1 store2 by (rule replacing_superseded)
  then have "tokens_verifyToken ?ta (tokenRecords (snd ?p2)) (fst ?p1) =
      \<lparr>v_success = False, v_subject = Undefined,
       v_status = ''invalid'', v_reason = ''unknown token''\<rparr>"
    by (rule replacing_verify_unknown)
  then show "verifyToken ?ta (fst ?p1) (snd ?p2) =
      AuthenticationFailed ''invalid'' ''unknown token''"
    by (simp add: verifyToken_def Let_def)
next
  let ?ta = replacing_authority
  let ?p1 = "provisionClient ?ta tc tu c st"
  let ?p2 = "provisionClient ?ta tc' tu' c (snd ?p1)"
  let ?s1 = "tokenRecords (snd ?p1)"
  have tok2: "fst ?p2 = m_token (fst (tokens_newToken ?ta ?s1 c))"
    by (rule provisionClient_token)
  have store2: "tokenRecords (snd ?p2) = snd (tokens_newToken ?ta ?s1 c)"
    by (rule provisionClient_tokenRecords)
  have accepted: "v_success (tokens_verifyToken ?ta (tokenRecords (snd ?p2)) (fst ?p2)) \<and>
      v_subject (tokens_verifyToken ?ta (tokenRecords (snd ?p2)) (fst ?p2)) = c"
    unfolding tok2 store2 by (rule replacing_verify_minted)
  obtain client where client: "getClient c (snd ?p2) = Some client" "cr_id client = c"
    "cr_tokenId client = tr_id (m_record (fst (tokens_newToken ?ta ?s1 c)))"
    using provisionClient_getClient by blast
  have verified: "verifyToken ?ta (fst ?p2) (snd ?p2) = Success (Some client)"
    using accepted client(1) by (simp add: verifyToken_def Let_def)
  have points: "cr_tokenId client = Str (fst ?p2)"
    unfolding client(3) tok2 by (simp add: replacing_newToken)
  show "\<exists>client. verifyToken ?ta (fst ?p2) (snd ?p2) = Success (Some client) \<and>
      cr_id client = c \<and> cr_tokenId client = Str (fst ?p2)"
  proof (intro exI conjI)
    show "verifyToken ?ta (fst ?p2) (snd ?p2) = Success (Some client)"
      by (rule verified)
    show "cr_id client = c"
      by (rule client(2))
    show "cr_tokenId client = Str (fst ?p2)"
      by (rule points)
  qed
qed

lemma messages_token_refresh_clientRecords:
  "clientRecords (snd (messages_token_refresh ta c st)) = clientRecords st"
  by (simp add: messages_token_refresh_def Let_def split_beta)

lemma messages_token_refresh_tokenRecords:
  "tokenRecords (snd (messages_token_refresh ta c st)) =
     snd (tokens_newToken ta (tokenRecords st) c)"
  by (simp add: messages_token_refresh_def Let_def split_beta)

lemma messages_state_frame:
  "messages_state s c st = Inr (client, st') \<Longrightarrow> st' = st"
  by (auto simp: messages_state_def split: option.splits)

text \<open>
  C10, as stated, fails. \<^verbatim>\<open>agent-42\<close> holds token \<^verbatim>\<open>T\<close> and is provisioned again: the
  record of \<^verbatim>\<open>T\<close>, which the client document referred to, is no longer in the token
  collection; the record of \<^verbatim>\<open>T+\<close> has taken its place.
\<close>

theorem provisionClient_token_store_counterexample:
  "getClient (Str ''agent-42'') demo_state = Some demo_client \<and>
   cr_tokenId demo_client = tr_id demo_token \<and>
   demo_token \<in> set (tokenRecords demo_state) \<and>
   demo_token \<notin> set (tokenRecords
     (snd (provisionClient replacing_authority 3 4 (Str ''agent-42'') demo_state))) \<and>
   tokenRecords (snd (provisionClient replacing_authority 3 4 (Str ''agent-42'') demo_state)) =
     [\<lparr>tr_id = Str ''T+'', tr_subject = Str ''agent-42'', tr_expires = 30\<rparr>]"
  by (simp add: provisionClient_tokenRecords replacing_newToken getClient_def findOne_def
      demo_state_def demo_client_def demo_token_def fresh_id_def id_length_def)

text \<open>
  C10, amended. \<^verbatim>\<open>provisionClient(c)\<close> makes no change of its own to the token collection:
  for every generator the collection afterwards is exactly the one the generator's mint
  returned, and with the generator in use that is the old collection with the new token's
  record in the place of the subject's record. It sets the client document's \<^verbatim>\<open>tokenId\<close>
  to the id of the minted record and leaves every other client as it was. The refresh
  handler also changes the collection only through the mint, and the state handler leaves
  the server state alone: the module's own deletions from the token collection are those
  of \<^verbatim>\<open>deprovisionClient\<close>.
\<close>

theorem provisionClient_token_store:
  "tokenRecords (snd (provisionClient ta tc tu c st)) =
     snd (tokens_newToken ta (tokenRecords st) c) \<and>
   tokenRecords (snd (provisionClient replacing_authority tc tu c st)) =
     upsertOne (\<lambda>t. tr_subject t = c)
       \<lparr>tr_id = Str (fresh_id (tokenRecords st)), tr_subject = c, tr_expires = 30\<rparr>
       (tokenRecords st) \<and>
   map_option cr_tokenId (getClient c (snd (provisionClient ta tc tu c st))) =
     Some (tr_id (m_record (fst (tokens_newToken ta (tokenRecords st) c)))) \<and>
   (\<forall>c'. c' \<noteq> c \<longrightarrow> getClient c' (snd (provisionClient ta tc tu c st)) = getClient c' st) \<and>
   tokenRecords (snd (messages_token_refresh ta c st)) =
     snd (tokens_newToken ta (tokenRecords st) c) \<and>
   (\<forall>s client st'. messages_state s c st = Inr (client, st') \<longrightarrow> st' = st)"
proof (intro conjI allI impI)
  show "tokenRecords (snd (provisionClient ta tc tu c st)) =
     snd (tokens_newToken ta (tokenRecords st) c)"
    by (rule provisionClient_tokenRecords)
  show "tokenRecords (snd (provisionClient replacing_authority tc tu c st)) =
     upsertOne (\<lambda>t. tr_subject t = c)
       \<lparr>tr_id = Str (fresh_id (tokenRecords st)), tr_subject = c, tr_expires = 30\<rparr>
       (tokenRecords st)"
    by (simp add: provisionClient_tokenRecords replacing_newToken)
  obtain r where "getClient c (snd (provisionClient ta tc tu c st)) = Some r"
    and "cr_tokenId r = tr_id (m_record (fst (tokens_newToken ta (tokenRecords st) c)))"
    using provisionClient_getClient by blast
  then show "map_option cr_tokenId (getClient c (snd (provisionClient ta tc tu c st))) =
     Some (tr_id (m_record (fst (tokens_newToken ta (tokenRecords st) c))))"
    by simp
  show "tokenRecords (snd (messages_token_refresh ta c st)) =
     snd (tokens_newToken ta (tokenRecords st) c)"
    by (rule messages_token_refresh_tokenRecords)
next
  fix c' :: jsval
  assume "c' \<noteq> c"
  then show "getClient c' (snd (provisionClient ta tc tu c st)) = getClient c' st"
    by (rule provisionClient_getClient_other)
next
  fix s client st'
  assume "messages_state s c st = Inr (client, st')"
  then show "st' = st"
    by (rule messages_state_frame)
qed

text \<open>
  At the provisioned registry: after the second provisioning the client points at \<^verbatim>\<open>T+\<close>,
  an unknown client is still unknown, and a state report leaves the registry as it was.
\<close>

theorem provisionClient_token_store_witness:
  "map_option cr_tokenId
     (getClient (Str ''agent-42'')
        (snd (provisionClient replacing_authority 3 4 (Str ''agent-42'') demo_state))) =
   Some (Str ''T+'') \<and>
   getClient (Str ''other'')
     (snd (provisionClient replacing_authority 3 4 (Str ''agent-42'') demo_state)) = None \<and>
   messages_state (Str ''idle'') (Str ''agent-42'') demo_state =
     Inr (demo_client\<lparr>cr_state := Str ''idle''\<rparr>, demo_state)"
proof -
  note th = provisionClient_token_store
    [of replacing_authority 3 4 "Str ''agent-42''" demo_state]
  note tokid = th [THEN conjunct2, THEN conjunct2, THEN conjunct1]
  note other = th [THEN conjunct2, THEN conjunct2, THEN conjunct2, THEN conjunct1,
    THEN spec, THEN mp]
  note frame = th [THEN conjunct2, THEN conjunct2, THEN conjunct2, THEN conjunct2,
    THEN conjunct2, THEN spec, THEN spec, THEN spec, THEN mp]
  have c2: "map_option cr_tokenId
     (getClient (Str ''agent-42'')
        (snd (provisionClient replacing_authority 3 4 (Str ''agent-42'') demo_state))) =
     Some (Str ''T+'')"
    unfolding tokid
    by (simp add: replacing_newToken demo_state_def demo_token_def fresh_id_def id_length_def)
  have differ: "Str ''other'' \<noteq> Str ''agent-42''"
    by simp
  have "getClient (Str ''other'')
     (snd (provisionClient replacing_authority 3 4 (Str ''agent-42'') demo_state)) =
     getClient (Str ''other'') demo_state"
    by (rule other [OF differ])
  then have c3: "getClient (Str ''other'')
     (snd (provisionClient replacing_authority 3 4 (Str ''agent-42'') demo_state)) = None"
    by (simp add: getClient_def findOne_def demo_state_def demo_client_def)
  have found: "getClient (Str ''agent-42'') demo_state = Some demo_client"
    by (simp add: getClient_def findOne_def demo_state_def demo_client_def)
  obtain client st' where
    ran: "messages_state (Str ''idle'') (Str ''agent-42'') demo_state = Inr (client, st')"
    and obj: "client = demo_client\<lparr>cr_state := Str ''idle''\<rparr>"
    using found by (simp add: messages_state_def)
  have "st' = demo_state"
    by (rule frame [OF ran])
  with ran obj have c4: "messages_state (Str ''idle'') (Str ''agent-42'') demo_state =
     Inr (demo_client\<lparr>cr_state := Str ''idle''\<rparr>, demo_state)"
    by simp
  from c2 c3 c4 show ?thesis
    by simp
qed

text \<open>
  C3 does not hold of the code. \<^verbatim>\<open>agent-42\<close> is provisioned with token \<^verbatim>\<open>T\<close> and then
  sends \<^verbatim>\<open>token.refresh\<close>: the handler issues \<^verbatim>\<open>T+\<close>, and the client document still has
  \<^verbatim>\<open>tokenId = T\<close> and the \<^verbatim>\<open>updated\<close> instant of the provisioning.
\<close>

theorem token_refresh_keeps_tokenId:
  "fst (messages_token_refresh replacing_authority (Str ''agent-42'') provisioned_state) =
     [ClientTokenIssue ''T+'' 30] \<and>
   map_option cr_tokenId (getClient (Str ''agent-42'') provisioned_state) = Some (Str ''T'') \<and>
   map_option cr_tokenId (getClient (Str ''agent-42'') refreshed_state) = Some (Str ''T'') \<and>
   map_option cr_updated (getClient (Str ''agent-42'') refreshed_state) = Some (Some 2)"
  by (simp add: refreshed_state_eq provisioned_state_eq messages_token_refresh_def
      replacing_authority_def Let_def getClient_def findOne_def
      demo_state_def demo_client_def demo_token_def fresh_id_def id_length_def)

lemma messages_state_result:
  "getClient c st = Some client \<Longrightarrow>
   messages_state s c st = Inr (client\<lparr>cr_state := s\<rparr>, st)"
  by (simp add: messages_state_def)

text \<open>
  C9 does not hold of the code. \<^verbatim>\<open>agent-42\<close> reports state \<^verbatim>\<open>idle\<close>: the handler sets
  \<^verbatim>\<open>state\<close> on the object it fetched and returns; the server state it leaves is
  the one it started from, so \<^verbatim>\<open>getClient\<close> afterwards still finds no state and the old
  \<^verbatim>\<open>updated\<close> instant.
\<close>

theorem messages_state_not_stored:
  "messages_state (Str ''idle'') (Str ''agent-42'') demo_state =
     Inr (demo_client\<lparr>cr_state := Str ''idle''\<rparr>, demo_state) \<and>
   map_option cr_state
     (getClient (Str ''agent-42'')
        (snd (projr (messages_state (Str ''idle'') (Str ''agent-42'') demo_state)))) =
     Some Undefined \<and>
   map_option cr_updated
     (getClient (Str ''agent-42'')
        (snd (projr (messages_state (Str ''idle'') (Str ''agent-42'') demo_state)))) =
     Some (Some 2)"
  by (simp add: messages_state_def getClient_def findOne_def demo_state_def demo_client_def)

lemma ep_deprovisionClient_falsy:
  "\<not> truthy clientId \<Longrightarrow>
   ep_deprovisionClient (Some clientId) st =
     (None,
      [Status 400, Send ''No client ID provided.''] @
        (if fst (deprovisionClient clientId st) then [Status 200, End] else [Status 204, End]),
      snd (deprovisionClient clientId st))"
  by (simp add: ep_deprovisionClient_def Let_def split_beta)

lemma ep_deprovisionClient_truthy:
  "truthy clientId \<Longrightarrow>
   ep_deprovisionClient (Some clientId) st =
     (None,
      (if fst (deprovisionClient clientId st) then [Status 200, End] else [Status 204, End]),
      snd (deprovisionClient clientId st))"
  by (simp add: ep_deprovisionClient_def Let_def split_beta)

text \<open>
  C8 does not hold of the code. A request whose \<^verbatim>\<open>clientId\<close> is missing or empty is
  answered 400 and the handler then still runs \<^verbatim>\<open>deprovisionClient\<close> and sets 204 on the
  response; with \<^verbatim>\<open>req.params\<close> itself missing it answers 400 and then throws.
\<close>

theorem ep_deprovisionClient_missing_id:
  "ep_deprovisionClient (Some Undefined) demo_state =
     (None, [Status 400, Send ''No client ID provided.'', Status 204, End], demo_state) \<and>
   ep_deprovisionClient (Some (Str [])) demo_state =
     (None, [Status 400, Send ''No client ID provided.'', Status 204, End], demo_state) \<and>
   ep_deprovisionClient None demo_state =
     (Some TypeError, [Status 400, Send ''No client ID provided.''], demo_state)"
  by (simp add: ep_deprovisionClient_def deprovisionClient_def getClient_def findOne_def
      demo_state_def demo_client_def Let_def)

section \<open>The agent: timers and setup\<close>

lemma onConnect_intervals:
  "intervals (onConnect connection w) =
     intervals w @ [(next_handle w, SendRefresh connection, 8 * 3600 * 1000)]"
  by (simp add: onConnect_def setInterval_def connection_send_def Let_def)

lemma onConnect_handle:
  "tokenRefreshInterval (onConnect connection w) = Some (Timeout (next_handle w))"
  by (simp add: onConnect_def setInterval_def connection_send_def Let_def)

lemma onConnect_sent:
  "sent (onConnect connection w) = sent w @ [(connection, ClientTokenRefresh)]"
  by (simp add: onConnect_def setInterval_def connection_send_def Let_def)

lemma onDisconnect_sent: "sent (onDisconnect w) = sent w"
  by (simp add: onDisconnect_def clearImmediate_def split: option.splits timer_handle.splits)

lemma filter_older_handles:
  "\<forall>e \<in> set xs. fst e < (n::nat) \<Longrightarrow> filter (\<lambda>(i, cb, ms). i \<noteq> n) xs = xs"
  by (induction xs) auto

lemma onDisconnect_onConnect_intervals:
  assumes "\<forall>e \<in> set (intervals w). fst e < next_handle w"
  shows "intervals (onDisconnect (onConnect connection w)) = intervals w"
proof -
  have "intervals (onDisconnect (onConnect connection w)) =
      filter (\<lambda>(i, cb, ms). i \<noteq> next_handle w) (intervals (onConnect connection w))"
    by (simp add: onDisconnect_def onConnect_handle clearImmediate_def)
  also have "\<dots> = filter (\<lambda>(i, cb, ms). i \<noteq> next_handle w) (intervals w)"
    by (simp add: onConnect_intervals)
  also have "\<dots> = intervals w"
    using assms by (rule filter_older_handles)
  finally show ?thesis .
qed

lemma interval_elapsed_idle: "intervals w = [] \<Longrightarrow> interval_elapsed w = w"
  by (simp add: interval_elapsed_def)

lemma intervals_elapsed_idle: "intervals w = [] \<Longrightarrow> (interval_elapsed ^^ k) w = w"
  by (induction k) (simp_all add: interval_elapsed_idle)

text \<open>
  C2. When the timers armed so far carry handles below the next handle (each handle is
  given out once), \<^verbatim>\<open>onConnect\<close> arms one interval of eight hours and \<^verbatim>\<open>onDisconnect\<close>
  takes exactly that one off again. For an agent with no timer armed, after
  \<^verbatim>\<open>onConnect\<close> and \<^verbatim>\<open>onDisconnect\<close> no timer is armed, and however many periods go by
  nothing is sent beyond the one refresh request of the connect.
\<close>

theorem onDisconnect_cancels_timer:
  "((\<forall>e \<in> set (intervals w). fst e < next_handle w) \<longrightarrow>
      tokenRefreshInterval (onConnect connection w) = Some (Timeout (next_handle w)) \<and>
      intervals (onConnect connection w) =
        intervals w @ [(next_handle w, SendRefresh connection, 8 * 3600 * 1000)] \<and>
      intervals (onDisconnect (onConnect connection w)) = intervals w) \<and>
   (intervals w = [] \<longrightarrow>
      intervals (onDisconnect (onConnect connection w)) = [] \<and>
      (\<forall>k. sent ((interval_elapsed ^^ k) (onDisconnect (onConnect connection w))) =
             sent w @ [(connection, ClientTokenRefresh)]))"
proof (intro conjI impI allI)
  assume "\<forall>e \<in> set (intervals w). fst e < next_handle w"
  then show "intervals (onDisconnect (onConnect connection w)) = intervals w"
    by (rule onDisconnect_onConnect_intervals)
next
  show "tokenRefreshInterval (onConnect connection w) = Some (Timeout (next_handle w))"
    by (rule onConnect_handle)
  show "intervals (onConnect connection w) =
        intervals w @ [(next_handle w, SendRefresh connection, 8 * 3600 * 1000)]"
    by (rule onConnect_intervals)
next
  assume idle: "intervals w = []"
  then show none: "intervals (onDisconnect (onConnect connection w)) = []"
    using onDisconnect_onConnect_intervals [of w connection] by simp
  fix k
  have "(interval_elapsed ^^ k) (onDisconnect (onConnect connection w)) =
      onDisconnect (onConnect connection w)"
    using none by (rule intervals_elapsed_idle)
  then show "sent ((interval_elapsed ^^ k) (onDisconnect (onConnect connection w))) =
             sent w @ [(connection, ClientTokenRefresh)]"
    by (simp add: onDisconnect_sent onConnect_sent)
qed

text \<open>
  On a fresh agent: the connect arms timer 0, whose callback would send a second request
  when a period elapses while connected; after the disconnect no timer is armed and three
  periods later the only request sent is the one of the connect.
\<close>

theorem onDisconnect_cancels_timer_witness:
  "intervals fresh_world = [] \<and>
   intervals (onConnect 1 fresh_world) = [(0, SendRefresh 1, 28800000)] \<and>
   sent (interval_elapsed (onConnect 1 fresh_world)) =
     [(1, ClientTokenRefresh), (1, ClientTokenRefresh)] \<and>
   intervals (onDisconnect (onConnect 1 fresh_world)) = [] \<and>
   sent ((interval_elapsed ^^ 3) (onDisconnect (onConnect 1 fresh_world))) =
     [(1, ClientTokenRefresh)]"
proof -
  note th = onDisconnect_cancels_timer [of fresh_world 1, THEN conjunct2, THEN mp]
  have idle: "intervals fresh_world = []"
    by (simp add: fresh_world_def)
  have armed: "intervals (onConnect 1 fresh_world) = [(0, SendRefresh 1, 28800000)]"
    by (simp add: onConnect_intervals fresh_world_def)
  have live: "sent (interval_elapsed (onConnect 1 fresh_world)) =
     [(1, ClientTokenRefresh), (1, ClientTokenRefresh)]"
    by (simp add: interval_elapsed_def onConnect_def setInterval_def connection_send_def
        fresh_world_def)
  from th [OF idle] have none: "intervals (onDisconnect (onConnect 1 fresh_world)) = []"
    and quiet: "\<forall>k. sent ((interval_elapsed ^^ k) (onDisconnect (onConnect 1 fresh_world))) =
             sent fresh_world @ [(1, ClientTokenRefresh)]"
    by simp_all
  from quiet have "sent ((interval_elapsed ^^ 3) (onDisconnect (onConnect 1 fresh_world))) =
             sent fresh_world @ [(1, ClientTokenRefresh)]"
    by (rule spec)
  then have quiet3: "sent ((interval_elapsed ^^ 3) (onDisconnect (onConnect 1 fresh_world))) =
     [(1, ClientTokenRefresh)]"
    by (simp add: fresh_world_def)
  from idle armed live none quiet3 show ?thesis
    by simp
qed

lemma token_paths_differ: "d @ ''/token'' \<noteq> d @ ''/token.expiration''"
  by simp

lemma saveToken_ok:
  "tokenPath w = Some tp \<Longrightarrow> tokenExpirationPath w = Some ep \<Longrightarrow> token w = Some t \<Longrightarrow>
   tp \<noteq> ep \<Longrightarrow>
   \<exists>w'. saveToken w = Inr w' \<and> token w' = Some t \<and> files w' tp = Some t"
  by (cases "tokenExpires w") (simp_all add: saveToken_def writeFileSync_def Let_def)

text \<open>
  C6 does not hold of the code when \<^verbatim>\<open>core.args\<close> is missing: with no token file
  installed, setup throws a \<^verbatim>\<open>TypeError\<close> on reading \<^verbatim>\<open>core.args.token\<close>, whatever fallback
  token is configured, and nothing is stored.
\<close>

theorem agent_setup_without_args:
  assumes "core_args c = None" and "files w (stateDir c @ ''/token'') = None"
  shows "agent_setup c w = Inl TypeError"
  using assms by (simp add: agent_setup_def existsSync_def Let_def)

text \<open>
  The failing start: no arguments, fallback token \<^verbatim>\<open>FALLBACK\<close>, empty state directory.
\<close>

theorem agent_setup_without_args_witness:
  "core_args fallback_core = None \<and>
   files fresh_world (stateDir fallback_core @ ''/token'') = None \<and>
   settings_token (core_settings fallback_core) = Str ''FALLBACK'' \<and>
   agent_setup fallback_core fresh_world = Inl TypeError"
proof -
  have a: "core_args fallback_core = None"
    by (simp add: fallback_core_def)
  have b: "files fresh_world (stateDir fallback_core @ ''/token'') = None"
    by (simp add: fresh_world_def)
  have c: "settings_token (core_settings fallback_core) = Str ''FALLBACK''"
    by (simp add: fallback_core_def)
  from agent_setup_without_args [OF a b] a b c show ?thesis
    by simp
qed

text \<open>
  With \<^verbatim>\<open>core.args\<close> present the first branch of setup behaves as described: the token is
  the command-line token, else the content of an existing token file, else the configured
  fallback, and it is written to the token file; with none of them setup throws
  \<^verbatim>\<open>No token set provided.\<close>
\<close>

lemma agent_setup_cold_start:
  assumes args: "core_args c = Some a"
    and cold: "files w (stateDir c @ ''/token'') = None \<or>
               (args_force a \<and> (truthy (args_token a) \<or> truthy (args_tokenFile a)))"
  shows "(truthy (args_token a) \<longrightarrow>
            (\<exists>w'. agent_setup c w = Inr w' \<and> token w' = Some (str_of (args_token a)) \<and>
                  files w' (stateDir c @ ''/token'') = Some (str_of (args_token a))))"
    and "(\<not> truthy (args_token a) \<and> truthy (args_tokenFile a) \<and>
          files w (str_of (args_tokenFile a)) = Some content \<longrightarrow>
            (\<exists>w'. agent_setup c w = Inr w' \<and> token w' = Some content \<and>
                  files w' (stateDir c @ ''/token'') = Some content))"
    and "(\<not> truthy (args_token a) \<and>
          \<not> (truthy (args_tokenFile a) \<and> files w (str_of (args_tokenFile a)) \<noteq> None) \<and>
          truthy (settings_token (core_settings c)) \<longrightarrow>
            (\<exists>w'. agent_setup c w = Inr w' \<and>
                  token w' = Some (str_of (settings_token (core_settings c))) \<and>
                  files w' (stateDir c @ ''/token'') =
                    Some (str_of (settings_token (core_settings c)))))"
    and "(\<not> truthy (args_token a) \<and>
          \<not> (truthy (args_tokenFile a) \<and> files w (str_of (args_tokenFile a)) \<noteq> None) \<and>
          \<not> truthy (settings_token (core_settings c)) \<longrightarrow>
            agent_setup c w = Inl (Error ''No token set provided.''))"
proof -
  let ?w1 = "w\<lparr>tokenPath := Some (stateDir c @ ''/token''),
               tokenExpirationPath := Some (stateDir c @ ''/token.expiration'')\<rparr>"
  have branch: "\<not> existsSync (stateDir c @ ''/token'') ?w1 \<or>
        (args_force a \<and> (truthy (args_token a) \<or> truthy (args_tokenFile a)))"
    using cold by (auto simp: existsSync_def)
  have save: "\<And>t. \<exists>w'. saveToken (?w1\<lparr>token := Some t\<rparr>) = Inr w' \<and> token w' = Some t \<and>
                 files w' (stateDir c @ ''/token'') = Some t"
    using saveToken_ok [of _ "stateDir c @ ''/token''" "stateDir c @ ''/token.expiration''"]
    by simp
  show "(truthy (args_token a) \<longrightarrow>
            (\<exists>w'. agent_setup c w = Inr w' \<and> token w' = Some (str_of (args_token a)) \<and>
                  files w' (stateDir c @ ''/token'') = Some (str_of (args_token a))))"
    using args branch save [of "str_of (args_token a)"]
    by (simp add: agent_setup_def Let_def)
  show "(\<not> truthy (args_token a) \<and> truthy (args_tokenFile a) \<and>
          files w (str_of (args_tokenFile a)) = Some content \<longrightarrow>
            (\<exists>w'. agent_setup c w = Inr w' \<and> token w' = Some content \<and>
                  files w' (stateDir c @ ''/token'') = Some content))"
    using args branch save [of content]
    by (auto simp add: agent_setup_def Let_def existsSync_def)
  show "(\<not> truthy (args_token a) \<and>
          \<not> (truthy (args_tokenFile a) \<and> files w (str_of (args_tokenFile a)) \<noteq> None) \<and>
          truthy (settings_token (core_settings c)) \<longrightarrow>
            (\<exists>w'. agent_setup c w = Inr w' \<and>
                  token w' = Some (str_of (settings_token (core_settings c))) \<and>
                  files w' (stateDir c @ ''/token'') =
                    Some (str_of (settings_token (core_settings c)))))"
    using args branch save [of "str_of (settings_token (core_settings c))"]
    by (auto simp add: agent_setup_def Let_def existsSync_def)
  show "(\<not> truthy (args_token a) \<and>
          \<not> (truthy (args_tokenFile a) \<and> files w (str_of (args_tokenFile a)) \<noteq> None) \<and>
          \<not> truthy (settings_token (core_settings c)) \<longrightarrow>
            agent_setup c w = Inl (Error ''No token set provided.''))"
    using args branch
    by (auto simp add: agent_setup_def Let_def existsSync_def)
qed

lemma loadToken_installed:
  "tokenPath w = Some tp \<Longrightarrow> tokenExpirationPath w = Some ep \<Longrightarrow> files w tp = Some t \<Longrightarrow>
   fst (loadToken w) = True \<and>
   token (snd (loadToken w)) = Some t \<and>
   files (snd (loadToken w)) = files w \<and>
   tokenExpires (snd (loadToken w)) =
     (case files w ep of None \<Rightarrow> tokenExpires w | Some e \<Rightarrow> Some e)"
  by (simp add: loadToken_def Let_def split: option.splits)

text \<open>
  C7. When a token file is installed and the force flag is not set, setup succeeds
  whatever token or token file the command line names: the agent's token is the installed
  one, the expiry is loaded when its file exists, and no file is written.
\<close>

theorem agent_setup_warm_start:
  assumes installed: "files w (stateDir c @ ''/token'') = Some t"
    and noforce: "\<forall>a. core_args c = Some a \<longrightarrow> \<not> args_force a"
  shows "\<exists>w'. agent_setup c w = Inr w' \<and>
              token w' = Some t \<and> getToken w' = Some t \<and>
              files w' = files w \<and>
              tokenExpires w' =
                (case files w (stateDir c @ ''/token.expiration'') of
                   None \<Rightarrow> tokenExpires w
                 | Some e \<Rightarrow> Some e)"
proof -
  let ?w1 = "w\<lparr>tokenPath := Some (stateDir c @ ''/token''),
               tokenExpirationPath := Some (stateDir c @ ''/token.expiration'')\<rparr>"
  have warm: "agent_setup c w = Inr (snd (loadToken ?w1))"
    using installed noforce
    by (cases "core_args c") (simp_all add: agent_setup_def existsSync_def Let_def)
  have loaded: "fst (loadToken ?w1) = True \<and>
        token (snd (loadToken ?w1)) = Some t \<and>
        files (snd (loadToken ?w1)) = files ?w1 \<and>
        tokenExpires (snd (loadToken ?w1)) =
          (case files ?w1 (stateDir c @ ''/token.expiration'') of
             None \<Rightarrow> tokenExpires ?w1 | Some e \<Rightarrow> Some e)"
    using loadToken_installed [of ?w1 "stateDir c @ ''/token''"
        "stateDir c @ ''/token.expiration''" t] installed
    by simp
  show ?thesis
  proof (intro exI conjI)
    show "agent_setup c w = Inr (snd (loadToken ?w1))"
      by (rule warm)
    show "token (snd (loadToken ?w1)) = Some t"
      using loaded by simp
    then show "getToken (snd (loadToken ?w1)) = Some t"
      by (simp add: getToken_def)
    show "files (snd (loadToken ?w1)) = files w"
      using loaded by simp
    show "tokenExpires (snd (loadToken ?w1)) =
            (case files w (stateDir c @ ''/token.expiration'') of
               None \<Rightarrow> tokenExpires w
             | Some e \<Rightarrow> Some e)"
      using loaded by (simp split: option.splits)
  qed
qed

text \<open>
  A start with \<^verbatim>\<open>--token CLI\<close>, no force flag, and \<^verbatim>\<open>PERSISTED\<close> installed.
\<close>

theorem agent_setup_warm_start_witness:
  "files installed_world (stateDir cli_core @ ''/token'') = Some ''PERSISTED'' \<and>
   map_option args_token (core_args cli_core) = Some (Str ''CLI'') \<and>
   (\<exists>w'. agent_setup cli_core installed_world = Inr w' \<and>
         token w' = Some ''PERSISTED'' \<and> getToken w' = Some ''PERSISTED'' \<and>
         files w' = files installed_world \<and>
         tokenExpires w' = Some ''2026-12-01'')"
proof -
  have a: "files installed_world (stateDir cli_core @ ''/token'') = Some ''PERSISTED''"
    by (simp add: installed_world_def cli_core_def)
  have b: "\<forall>a. core_args cli_core = Some a \<longrightarrow> \<not> args_force a"
    by (simp add: cli_core_def)
  have c: "map_option args_token (core_args cli_core) = Some (Str ''CLI'')"
    by (simp add: cli_core_def)
  have e: "files installed_world (stateDir cli_core @ ''/token.expiration'') =
             Some ''2026-12-01''"
    by (simp add: installed_world_def cli_core_def)
  from agent_setup_warm_start [OF a b] e a c show ?thesis
    by simp
qed

end
